theory Spec2Isabelle
  imports Main "HOL-Library.Sublist"
begin

section \<open>The PDF scraper of src/main.go\<close>

text \<open>
  A Go \<open>string\<close> is a sequence of bytes, modelled as \<^typ>\<open>string\<close> (a list of
  8-bit \<^typ>\<open>char\<close>). A \<open>[]string\<close> is a \<^typ>\<open>string list\<close>; the nil slice and
  the empty slice are both \<open>[]\<close>. Paths follow the Unix rules of \<open>path/filepath\<close>
  (separator \<open>/\<close>, no volume names).
\<close>

subsection \<open>removeDuplicatesFromSlice (main.go, lines 96-108)\<close>

text \<open>
  \<open>check\<close> is a Go \<open>map[string]bool\<close>. Reading a key that was never stored gives
  the zero value \<open>false\<close>.
\<close>

type_synonym seen = "string \<rightharpoonup> bool"

definition lookupSeen :: "seen \<Rightarrow> string \<Rightarrow> bool" where
  "lookupSeen check content = (case check content of None \<Rightarrow> False | Some b \<Rightarrow> b)"

text \<open>The \<open>for ... range slice\<close> loop, with the two variables it updates.\<close>

fun dedupLoop :: "string list \<Rightarrow> seen \<Rightarrow> string list \<Rightarrow> string list" where
  "dedupLoop [] check newReturnSlice = newReturnSlice"
| "dedupLoop (content # rest) check newReturnSlice =
     (if \<not> lookupSeen check content
      then dedupLoop rest (check(content \<mapsto> True)) (newReturnSlice @ [content])
      else dedupLoop rest check newReturnSlice)"

definition removeDuplicatesFromSlice :: "string list \<Rightarrow> string list" where
  "removeDuplicatesFromSlice slice = dedupLoop slice Map.empty []"

text \<open>
  The specification's wording, as a function of its own: keep the first occurrence of
  every element, in the order of the first occurrences.
\<close>

fun firstOccurrences :: "'a list \<Rightarrow> 'a list" where
  "firstOccurrences [] = []"
| "firstOccurrences (x # xs) = x # firstOccurrences (filter (\<lambda>y. y \<noteq> x) xs)"

subsection \<open>Functions of the Go library that the source calls\<close>

text \<open>
  \<open>strings.ToLower\<close> first looks for a byte outside ASCII (\<open>c >= utf8.RuneSelf\<close>, the
  top bit of the byte). Without one it turns every ASCII upper-case letter into its
  lower-case letter and keeps the other bytes: this is \<open>ToLower\<close>. With one it returns
  \<open>strings.Map(unicode.ToLower, s)\<close>, which maps every rune through the Unicode case
  tables (U+212A, the Kelvin sign, becomes the ASCII letter \<open>k\<close>) and writes U+FFFD for
  an invalid byte. The Unicode tables are not part of this repository: the mapping of a
  string with a byte outside ASCII is the parameter \<open>unicodeLower\<close> of
  \<open>ToLowerUnicode\<close>, and the theorems on the sanitizer and the fetcher hold for every
  such mapping.

  The extractor uses the result of \<open>strings.ToLower\<close> only to test for \<open>.pdf\<close>. No
  rune outside ASCII is mapped to a byte of \<open>.pdf\<close>, and no byte of a rune outside ASCII
  is an ASCII byte, so that test has the same outcome on \<open>ToLower\<close>, which the
  extractor is stated with.
\<close>

definition lowerByte :: "char \<Rightarrow> char" where
  "lowerByte c =
     (case map_of (zip ''ABCDEFGHIJKLMNOPQRSTUVWXYZ'' ''abcdefghijklmnopqrstuvwxyz'') c of
        Some l \<Rightarrow> l
      | None \<Rightarrow> c)"

definition ToLower :: "string \<Rightarrow> string" where
  "ToLower s = map lowerByte s"

type_synonym caseMapping = "string \<Rightarrow> string"

definition isASCII :: "string \<Rightarrow> bool" where
  "isASCII s = list_all (\<lambda>c. \<not> digit7 c) s"

definition ToLowerUnicode :: "caseMapping \<Rightarrow> string \<Rightarrow> string" where
  "ToLowerUnicode unicodeLower s = (if isASCII s then ToLower s else unicodeLower s)"

text \<open>
  A case mapping to evaluate with: it lower-cases the ASCII letters and the Kelvin sign
  (the bytes E2 84 AA), as Go does, and is used on strings with these runes only.
\<close>

fun kelvinToK :: "string \<Rightarrow> string" where
  "kelvinToK (a # b # c # rest) =
     (if a = CHR 0xE2 \<and> b = CHR 0x84 \<and> c = CHR 0xAA then CHR ''k'' # kelvinToK rest
      else a # kelvinToK (b # c # rest))"
| "kelvinToK s = s"

definition sampleLower :: caseMapping where
  "sampleLower s = ToLower (kelvinToK s)"

text \<open>A URL whose base name starts with the Kelvin sign, followed by \<open>elvin.PDF\<close>.\<close>

definition kelvinURL :: string where
  "kelvinURL = ''https://example.com/docs/'' @ [CHR 0xE2, CHR 0x84, CHR 0xAA] @ ''elvin.PDF''"

text \<open>\<open>strings.Contains(s, substr)\<close>: \<open>substr\<close> occurs in \<open>s\<close> as a contiguous run.\<close>

definition Contains :: "string \<Rightarrow> string \<Rightarrow> bool" where
  "Contains s substr = sublist substr s"

text \<open>
  \<open>strings.Split(s, sep)\<close> for a separator of one byte, as the source calls it
  (\<open>"?"\<close>): the fields between the separators, never an empty slice.
\<close>

fun Split :: "string \<Rightarrow> char \<Rightarrow> string list" where
  "Split [] sep = [[]]"
| "Split (c # cs) sep =
     (if c = sep then [] # Split cs sep
      else (case Split cs sep of
              [] \<Rightarrow> [[c]]
            | field # fields \<Rightarrow> (c # field) # fields))"

definition isPathSeparator :: "char \<Rightarrow> bool" where
  "isPathSeparator c = (c = CHR ''/'')"

text \<open>
  \<open>filepath.Base\<close>: the empty path gives \<open>"."\<close>; trailing separators are stripped,
  the last element is kept, and a path of separators only gives \<open>"/"\<close>.
\<close>

definition Base :: "string \<Rightarrow> string" where
  "Base path =
     (if path = [] then ''.''
      else
        let path = rev (dropWhile isPathSeparator (rev path));
            path = rev (takeWhile (\<lambda>c. \<not> isPathSeparator c) (rev path))
        in if path = [] then ''/'' else path)"

text \<open>
  \<open>filepath.Ext\<close> walks from the last byte towards the first, stops at a separator
  and returns the suffix that starts at the first dot it meets. \<open>extScan\<close> takes the
  bytes still to visit (last byte first) and the bytes already passed.
\<close>

fun extScan :: "string \<Rightarrow> string \<Rightarrow> string" where
  "extScan [] passed = []"
| "extScan (c # front) passed =
     (if isPathSeparator c then []
      else if c = CHR ''.'' then c # passed
      else extScan front (c # passed))"

definition Ext :: "string \<Rightarrow> string" where
  "Ext path = extScan (rev path) []"

text \<open>
  \<open>regexp.MustCompile(`[^a-z0-9]`).ReplaceAllString(s, "_")\<close>, byte by byte. Go's
  regexp matches runes, so a rune of several bytes gives one underscore where this
  gives one per byte; the next step of the source collapses every run of underscores,
  after which the two agree.
\<close>

definition isLowerAlnum :: "char \<Rightarrow> bool" where
  "isLowerAlnum c = (c \<in> set ''abcdefghijklmnopqrstuvwxyz0123456789'')"

definition replaceNonAlnum :: "string \<Rightarrow> string" where
  "replaceNonAlnum s = map (\<lambda>c. if isLowerAlnum c then c else CHR ''_'') s"

text \<open>\<open>regexp.MustCompile(`_+`).ReplaceAllString(s, "_")\<close>.\<close>

fun collapseUnderscores :: "string \<Rightarrow> string" where
  "collapseUnderscores (a # b # cs) =
     (if a = CHR ''_'' \<and> b = CHR ''_'' then collapseUnderscores (b # cs)
      else a # collapseUnderscores (b # cs))"
| "collapseUnderscores cs = cs"

text \<open>\<open>strings.Trim(s, cutset)\<close> for a cutset of one byte.\<close>

definition Trim :: "string \<Rightarrow> char \<Rightarrow> string" where
  "Trim s cutByte = rev (dropWhile (\<lambda>c. c = cutByte) (rev (dropWhile (\<lambda>c. c = cutByte) s)))"

text \<open>
  \<open>strings.TrimSpace\<close> removes the leading and the trailing white space runes
  (\<open>unicode.IsSpace\<close>). \<open>unicodeSpaces\<close> lists their UTF-8 encodings: the six
  ASCII ones, U+0085, U+00A0, U+1680, U+2000 to U+200A, U+2028, U+2029, U+202F, U+205F
  and U+3000. \<open>trimPrefixes\<close> strips leading members of a list of byte strings for as
  long as there is one.
\<close>

definition unicodeSpaces :: "string list" where
  "unicodeSpaces =
     [[CHR 0x09], [CHR 0x0A], [CHR 0x0B], [CHR 0x0C], [CHR 0x0D], [CHR 0x20],
      [CHR 0xC2, CHR 0x85], [CHR 0xC2, CHR 0xA0],
      [CHR 0xE1, CHR 0x9A, CHR 0x80],
      [CHR 0xE2, CHR 0x80, CHR 0x80], [CHR 0xE2, CHR 0x80, CHR 0x81],
      [CHR 0xE2, CHR 0x80, CHR 0x82], [CHR 0xE2, CHR 0x80, CHR 0x83],
      [CHR 0xE2, CHR 0x80, CHR 0x84], [CHR 0xE2, CHR 0x80, CHR 0x85],
      [CHR 0xE2, CHR 0x80, CHR 0x86], [CHR 0xE2, CHR 0x80, CHR 0x87],
      [CHR 0xE2, CHR 0x80, CHR 0x88], [CHR 0xE2, CHR 0x80, CHR 0x89],
      [CHR 0xE2, CHR 0x80, CHR 0x8A],
      [CHR 0xE2, CHR 0x80, CHR 0xA8], [CHR 0xE2, CHR 0x80, CHR 0xA9],
      [CHR 0xE2, CHR 0x80, CHR 0xAF], [CHR 0xE2, CHR 0x81, CHR 0x9F],
      [CHR 0xE3, CHR 0x80, CHR 0x80]]"

function trimPrefixes :: "string list \<Rightarrow> string \<Rightarrow> string" where
  "trimPrefixes ws s =
     (case find (\<lambda>w. w \<noteq> [] \<and> prefix w s) ws of
        None \<Rightarrow> s
      | Some w \<Rightarrow> trimPrefixes ws (drop (length w) s))"
  by pat_completeness auto
termination
proof (relation "measure (\<lambda>(ws, s). length s)")
  show "wf (measure (\<lambda>(ws, s). length s))" by simp
next
  fix ws :: "string list" and s w :: string
  assume "find (\<lambda>w. w \<noteq> [] \<and> prefix w s) ws = Some w"
  then have "w \<noteq> [] \<and> prefix w s"
    by (auto simp: find_Some_iff)
  then obtain c cs where "w = c # cs" and "length w \<le> length s"
    by (cases w) (auto simp: prefix_def)
  then show "((ws, drop (length w) s), (ws, s)) \<in> measure (\<lambda>(ws, s). length s)"
    by simp
qed

declare trimPrefixes.simps [simp del]

definition TrimSpace :: "string \<Rightarrow> string" where
  "TrimSpace s =
     (let s = trimPrefixes unicodeSpaces s
      in rev (trimPrefixes (map rev unicodeSpaces) (rev s)))"

text \<open>
  \<open>filepath.Join\<close> joins the elements from the first non-empty one on with the
  separator and cleans the result; with no non-empty element it gives the empty path.
  \<open>filepath.Clean\<close> reads the path from the left and writes the cleaned path: \<open>out\<close>
  is what is written so far and \<open>dotdot\<close> the index in \<open>out\<close> below which a \<open>..\<close>
  element must not remove anything. \<open>backtrack\<close> is the inner loop that drops the last
  element written; it returns the new length of \<open>out\<close>.
\<close>

definition joinStrings :: "string list \<Rightarrow> string \<Rightarrow> string" where
  "joinStrings elems sep =
     (case elems of
        [] \<Rightarrow> []
      | first # others \<Rightarrow> first @ concat (map (\<lambda>e. sep @ e) others))"

fun backtrack :: "string \<Rightarrow> nat \<Rightarrow> nat \<Rightarrow> nat" where
  "backtrack out 0 dotdot = 0"
| "backtrack out (Suc w) dotdot =
     (if Suc w > dotdot \<and> \<not> isPathSeparator (out ! Suc w)
      then backtrack out w dotdot
      else Suc w)"

function cleanLoop :: "bool \<Rightarrow> string \<Rightarrow> string \<Rightarrow> nat \<Rightarrow> string" where
  "cleanLoop rooted [] out dotdot = out"
| "cleanLoop rooted (c # rest) out dotdot =
     (if isPathSeparator c then cleanLoop rooted rest out dotdot
      else if c = CHR ''.'' \<and> (rest = [] \<or> isPathSeparator (hd rest))
        then cleanLoop rooted rest out dotdot
      else if c = CHR ''.'' \<and> rest \<noteq> [] \<and> hd rest = CHR ''.''
              \<and> (tl rest = [] \<or> isPathSeparator (hd (tl rest)))
        then (if length out > dotdot
              then cleanLoop rooted (tl rest)
                     (take (backtrack out (length out - 1) dotdot) out) dotdot
              else if \<not> rooted
              then cleanLoop rooted (tl rest)
                     ((if length out > 0 then out @ ''/'' else out) @ ''..'')
                     (length ((if length out > 0 then out @ ''/'' else out) @ ''..''))
              else cleanLoop rooted (tl rest) out dotdot)
      else cleanLoop rooted (dropWhile (\<lambda>x. \<not> isPathSeparator x) rest)
             ((if (rooted \<and> length out \<noteq> 1) \<or> (\<not> rooted \<and> length out \<noteq> 0)
               then out @ ''/'' else out)
              @ c # takeWhile (\<lambda>x. \<not> isPathSeparator x) rest)
             dotdot)"
  by pat_completeness auto
termination
  by (relation "measure (\<lambda>(rooted, path, out, dotdot). length path)")
     (auto simp: less_Suc_eq_le length_dropWhile_le)

definition Clean :: "string \<Rightarrow> string" where
  "Clean path =
     (if path = [] then ''.''
      else
        let rooted = isPathSeparator (hd path);
            out = (if rooted then cleanLoop True (tl path) ''/'' 1
                   else cleanLoop False path [] 0)
        in if out = [] then ''.'' else out)"

definition Join :: "string list \<Rightarrow> string" where
  "Join elem =
     (case dropWhile (\<lambda>e. e = []) elem of
        [] \<Rightarrow> []
      | e # es \<Rightarrow> Clean (joinStrings (e # es) ''/''))"

subsection \<open>The filename sanitizer (main.go, lines 143-189)\<close>

definition getFileExtension :: "string \<Rightarrow> string" where
  "getFileExtension path = Ext path"

definition getFilename :: "string \<Rightarrow> string" where
  "getFilename path = Base path"

text \<open>
  \<open>removeSubstring\<close> is \<open>strings.ReplaceAll(input, toRemove, "")\<close>: the occurrences
  are found from the left and do not overlap. With an empty \<open>toRemove\<close> Go inserts the
  (empty) replacement between the runes, which returns the input.
\<close>

function removeSubstring :: "string \<Rightarrow> string \<Rightarrow> string" where
  "removeSubstring input toRemove =
     (if toRemove = [] \<or> input = [] then input
      else if prefix toRemove input
        then removeSubstring (drop (length toRemove) input) toRemove
      else hd input # removeSubstring (tl input) toRemove)"
  by pat_completeness auto
termination
  by (relation "measure (\<lambda>(input, toRemove). length input)") auto

declare removeSubstring.simps [simp del]

definition invalidSubstrings :: "string list" where
  "invalidSubstrings = [''_pdf'', ''_zip'', ''_txt'']"

text \<open>
  \<open>strings.Split(lower, "?")[0]\<close> is \<open>hd\<close> of a list that \<open>Split\<close> never returns
  empty. The loop over \<open>invalidSubstrings\<close> is a left fold. The first argument is the
  Unicode case mapping that \<open>strings.ToLower\<close> applies to a URL with a byte outside
  ASCII.
\<close>

definition urlToFilename :: "caseMapping \<Rightarrow> string \<Rightarrow> string" where
  "urlToFilename unicodeLower rawURL =
     (let lower = ToLowerUnicode unicodeLower rawURL;
          lower = hd (Split lower (CHR ''?''));
          lower = getFilename lower;
          ext = getFileExtension lower;
          safe = replaceNonAlnum lower;
          safe = collapseUnderscores safe;
          safe = Trim safe (CHR ''_'');
          safe = foldl removeSubstring safe invalidSubstrings
      in if getFileExtension safe = [] then safe @ ext else safe)"

text \<open>
  The alphabet of the sanitized part of a name, and that alphabet with the dot of an
  extension added.
\<close>

definition isSafeByte :: "char \<Rightarrow> bool" where
  "isSafeByte c = (isLowerAlnum c \<or> c = CHR ''_'')"

definition isNameByte :: "char \<Rightarrow> bool" where
  "isNameByte c = (isSafeByte c \<or> c = CHR ''.'')"

definition countDots :: "string \<Rightarrow> nat" where
  "countDots s = length (filter (\<lambda>c. c = CHR ''.'') s)"

text \<open>
  The steps of \<open>urlToFilename\<close> between the capture of the extension and the final
  test, applied to the lower-cased base name.
\<close>

definition sanitizedStem :: "string \<Rightarrow> string" where
  "sanitizedStem lower =
     foldl removeSubstring (Trim (collapseUnderscores (replaceNonAlnum lower)) (CHR ''_''))
       invalidSubstrings"

text \<open>
  What the specification asks of the name of a representative URL: bytes of
  \<open>[a-z0-9_]\<close> and dots only, at most one dot, only \<open>[a-z0-9_]\<close> before it, and none
  of the three tokens that the sanitizer removes.
\<close>

definition cleanName :: "string \<Rightarrow> bool" where
  "cleanName name =
     (list_all isNameByte name
      \<and> countDots name \<le> 1
      \<and> list_all isSafeByte (takeWhile (\<lambda>c. c \<noteq> CHR ''.'') name)
      \<and> \<not> Contains name ''_pdf''
      \<and> \<not> Contains name ''_zip''
      \<and> \<not> Contains name ''_txt'')"

subsection \<open>The link extractor (main.go, lines 192-222)\<close>

text \<open>
  The tree of \<open>golang.org/x/net/html\<close>: a node has a type, its data (the tag name of
  an element), its attributes and its children in document order (\<open>FirstChild\<close> and
  then \<open>NextSibling\<close>).
\<close>

datatype NodeType =
  ErrorNode | TextNode | DocumentNode | ElementNode | CommentNode | DoctypeNode | RawNode

record Attribute =
  Namespace :: string
  Key :: string
  Val :: string

datatype Node =
  Node (Type: NodeType) (Data: string) (Attr: "Attribute list") (Children: "Node list")

text \<open>
  The loop over the attributes of an anchor. \<open>pdfLinks\<close> is the slice that the closure
  \<open>exploreHTML\<close> appends to; it is passed in and returned.
\<close>

fun scanAttributes :: "Attribute list \<Rightarrow> string list \<Rightarrow> string list" where
  "scanAttributes [] pdfLinks = pdfLinks"
| "scanAttributes (attribute # rest) pdfLinks =
     (if Key attribute = ''href''
      then (let link = TrimSpace (Val attribute)
            in if Contains (ToLower link) ''.pdf''
               then scanAttributes rest (pdfLinks @ [link])
               else scanAttributes rest pdfLinks)
      else scanAttributes rest pdfLinks)"

fun exploreHTML :: "Node \<Rightarrow> string list \<Rightarrow> string list"
  and exploreChildren :: "Node list \<Rightarrow> string list \<Rightarrow> string list" where
  "exploreHTML (Node ty dat attrs kids) pdfLinks =
     exploreChildren kids
       (if ty = ElementNode \<and> dat = ''a'' then scanAttributes attrs pdfLinks else pdfLinks)"
| "exploreChildren [] pdfLinks = pdfLinks"
| "exploreChildren (childNode # siblings) pdfLinks =
     exploreChildren siblings (exploreHTML childNode pdfLinks)"

text \<open>
  \<open>html.Parse\<close> is the parser of the library, not code of this repository: it is the
  parameter \<open>parse\<close>, which gives the root of the tree or an error. On an error the
  source returns nil, the empty slice.
\<close>

datatype parseError = ParseError

definition extractPDFUrls :: "(string \<Rightarrow> parseError + Node) \<Rightarrow> string \<Rightarrow> string list" where
  "extractPDFUrls parse htmlContent =
     (case parse htmlContent of
        Inl parseError \<Rightarrow> []
      | Inr parsedHTML \<Rightarrow> exploreHTML parsedHTML [])"

text \<open>
  The specification's wording, as functions of their own: the values of the \<open>href\<close>
  attributes of the anchor elements, in document order (a node before its children,
  the children from first to last), and the test for the marker \<open>.pdf\<close> in any case.
\<close>

definition hrefValues :: "Attribute list \<Rightarrow> string list" where
  "hrefValues attrs = map Val (filter (\<lambda>attribute. Key attribute = ''href'') attrs)"

fun anchorHrefs :: "Node \<Rightarrow> string list" where
  "anchorHrefs (Node ty dat attrs kids) =
     (if ty = ElementNode \<and> dat = ''a'' then hrefValues attrs else [])
     @ concat (map anchorHrefs kids)"

definition hasPdfMarker :: "string \<Rightarrow> bool" where
  "hasPdfMarker target = Contains (ToLower target) ''.pdf''"

text \<open>
  The tree that the parser builds for the page
  \<open><html><head></head><body><a href="  Doc.PDF ">x</a><div><a href="index.html">y</a>
  <a href="/get?f=a.Pdf&v=1">z</a></div></body></html>\<close>
  (without the white space between the two last anchors).
\<close>

definition anchor :: "string \<Rightarrow> string \<Rightarrow> Node" where
  "anchor target label =
     Node ElementNode ''a'' [\<lparr>Namespace = [], Key = ''href'', Val = target\<rparr>]
       [Node TextNode label [] []]"

definition examplePage :: Node where
  "examplePage =
     Node DocumentNode [] []
       [Node ElementNode ''html'' []
          [Node ElementNode ''head'' [] [],
           Node ElementNode ''body'' []
             [anchor ''  Doc.PDF '' ''x'',
              Node ElementNode ''div'' []
                [anchor ''index.html'' ''y'', anchor ''/get?f=a.Pdf&v=1'' ''z'']]]]"

text \<open>
  The anchor elements in document order, the anchors that carry a link to a document,
  and the anchors without a repeated \<open>href\<close> attribute.
\<close>

fun anchorNodes :: "Node \<Rightarrow> Node list" where
  "anchorNodes (Node ty dat attrs kids) =
     (if ty = ElementNode \<and> dat = ''a'' then [Node ty dat attrs kids] else [])
     @ concat (map anchorNodes kids)"

definition carriesPdfHref :: "Node \<Rightarrow> bool" where
  "carriesPdfHref node = list_ex hasPdfMarker (hrefValues (Attr node))"

definition singleHref :: "Node \<Rightarrow> bool" where
  "singleHref node = (length (hrefValues (Attr node)) \<le> 1)"

text \<open>
  The markup of \<open>examplePage\<close> (the body's content; the parser adds the \<open>html\<close>,
  \<open>head\<close> and \<open>body\<close> elements) and a parser that gives its tree.
\<close>

definition exampleMarkup :: string where
  \<open>exampleMarkup = ''<a href="  Doc.PDF ">x</a><div><a href="index.html">y</a><a href="/get?f=a.Pdf&v=1">z</a></div>''\<close>

definition exampleParse :: "string \<Rightarrow> parseError + Node" where
  "exampleParse htmlContent = Inr examplePage"

subsection \<open>The document fetcher (main.go, lines 134-140 and 225-282)\<close>

text \<open>
  The file system is a map from paths to what is stored there. \<open>os.Stat\<close> succeeds on
  a path that is present. The network, the refusals of \<open>os.Create\<close> and the faults of a
  write are outside the program: they are the fields of an \<open>environment\<close>. A
  \<open>Response\<close> holds the status code, the header, and what \<open>io.Copy\<close> gets from the
  body: the bytes delivered and whether the read ended with an error. \<open>writeFault\<close>
  gives the number of bytes after which a write to a path fails, if it does.

  \<open>downloadPDF\<close> takes the Unicode case mapping of \<open>strings.ToLower\<close>, the
  environment and the state of the world (the files and the effects so far, in order)
  and returns its result with the new state. Every \<open>log.Printf\<close> is a \<open>Log\<close>
  effect; the request, the read of the body, the creation of the file and the write are
  effects too, so that their order can be stated.
\<close>

datatype error = ErrNotExist | ErrTransport | ErrRead | ErrCreate | ErrWrite

datatype fileNode = RegularFile string | Directory

type_synonym fileSystem = "string \<rightharpoonup> fileNode"

definition os_Stat :: "fileSystem \<Rightarrow> string \<Rightarrow> error + fileNode" where
  "os_Stat fs name = (case fs name of None \<Rightarrow> Inl ErrNotExist | Some info \<Rightarrow> Inr info)"

definition IsDir :: "fileNode \<Rightarrow> bool" where
  "IsDir info = (info = Directory)"

definition fileExists :: "fileSystem \<Rightarrow> string \<Rightarrow> bool" where
  "fileExists fs filename =
     (case os_Stat fs filename of
        Inl err \<Rightarrow> False
      | Inr info \<Rightarrow> \<not> IsDir info)"

record Response =
  StatusCode :: nat
  Header :: "string \<rightharpoonup> string list"
  Body :: string
  BodyError :: bool

definition headerGet :: "(string \<rightharpoonup> string list) \<Rightarrow> string \<Rightarrow> string" where
  "headerGet header key =
     (case header key of
        None \<Rightarrow> []
      | Some [] \<Rightarrow> []
      | Some (v # vs) \<Rightarrow> v)"

definition io_Copy :: "Response \<Rightarrow> string \<times> nat \<times> bool" where
  "io_Copy response = (Body response, length (Body response), BodyError response)"

record environment =
  httpGet :: "string \<Rightarrow> error + Response"
  createDenied :: "string \<Rightarrow> bool"
  writeFault :: "string \<Rightarrow> nat option"

datatype logEntry =
    FileAlreadyExists string
  | FailedToDownload string
  | DownloadFailed string nat
  | InvalidContentType string string
  | FailedToRead string
  | DownloadedZeroBytes string
  | FailedToCreate string
  | FailedToWrite string
  | SuccessfullyDownloaded nat string string

datatype effect =
    HttpGet string
  | ReadBody nat
  | CreateFile string
  | WriteFile string nat
  | Log logEntry

record world =
  files :: fileSystem
  effects :: "effect list"

definition emit :: "effect \<Rightarrow> world \<Rightarrow> world" where
  "emit e w = w\<lparr>effects := effects w @ [e]\<rparr>"

definition os_Create :: "environment \<Rightarrow> string \<Rightarrow> world \<Rightarrow> (error + string) \<times> world" where
  "os_Create env name w =
     (if createDenied env name \<or> files w name = Some Directory then (Inl ErrCreate, w)
      else (Inr name, emit (CreateFile name) (w\<lparr>files := (files w)(name \<mapsto> RegularFile [])\<rparr>)))"

definition WriteTo :: "environment \<Rightarrow> string \<Rightarrow> string \<Rightarrow> world \<Rightarrow> error option \<times> world" where
  "WriteTo env buffer name w =
     (case writeFault env name of
        None \<Rightarrow>
          (None, emit (WriteFile name (length buffer))
                   (w\<lparr>files := (files w)(name \<mapsto> RegularFile buffer)\<rparr>))
      | Some n \<Rightarrow>
          (Some ErrWrite, emit (WriteFile name (min n (length buffer)))
                   (w\<lparr>files := (files w)(name \<mapsto> RegularFile (take n buffer))\<rparr>)))"

definition downloadPDF ::
  "caseMapping \<Rightarrow> environment \<Rightarrow> string \<Rightarrow> string \<Rightarrow> world \<Rightarrow> bool \<times> world" where
  "downloadPDF unicodeLower env pdfURL outputDirectory w =
     (let safeFilename = ToLowerUnicode unicodeLower (urlToFilename unicodeLower pdfURL);
          fullFilePath = Join [outputDirectory, safeFilename]
      in if fileExists (files w) fullFilePath
         then (False, emit (Log (FileAlreadyExists fullFilePath)) w)
         else
           let w = emit (HttpGet pdfURL) w
           in case httpGet env pdfURL of
                Inl requestError \<Rightarrow> (False, emit (Log (FailedToDownload pdfURL)) w)
              | Inr httpResponse \<Rightarrow>
                  if StatusCode httpResponse \<noteq> 200
                  then (False, emit (Log (DownloadFailed pdfURL (StatusCode httpResponse))) w)
                  else
                    let contentType = headerGet (Header httpResponse) ''Content-Type''
                    in if \<not> Contains contentType ''binary/octet-stream''
                          \<and> \<not> Contains contentType ''application/pdf''
                       then (False, emit (Log (InvalidContentType pdfURL contentType)) w)
                       else
                         let (responseBuffer, bytesWritten, copyError) = io_Copy httpResponse;
                             w = emit (ReadBody bytesWritten) w
                         in if copyError then (False, emit (Log (FailedToRead pdfURL)) w)
                            else if bytesWritten = 0
                            then (False, emit (Log (DownloadedZeroBytes pdfURL)) w)
                            else
                              case os_Create env fullFilePath w of
                                (Inl fileCreateError, w) \<Rightarrow>
                                  (False, emit (Log (FailedToCreate pdfURL)) w)
                              | (Inr outputFile, w) \<Rightarrow>
                                  (case WriteTo env responseBuffer outputFile w of
                                     (Some writeError, w) \<Rightarrow>
                                       (False, emit (Log (FailedToWrite pdfURL)) w)
                                   | (None, w) \<Rightarrow>
                                       (True, emit (Log (SuccessfullyDownloaded bytesWritten
                                                pdfURL fullFilePath)) w)))"

text \<open>
  The destination path of a document, the effects that a call added, and concrete
  responses, servers and stores to evaluate \<open>downloadPDF\<close> on.
\<close>

definition destination :: "caseMapping \<Rightarrow> string \<Rightarrow> string \<Rightarrow> string" where
  "destination unicodeLower pdfURL outputDirectory =
     Join [outputDirectory, ToLowerUnicode unicodeLower (urlToFilename unicodeLower pdfURL)]"

definition pdfResponse :: "string \<Rightarrow> string \<Rightarrow> Response" where
  "pdfResponse contentType body =
     \<lparr>StatusCode = 200, Header = [''Content-Type'' \<mapsto> [contentType]], Body = body,
      BodyError = False\<rparr>"

definition server :: "Response \<Rightarrow> environment" where
  "server response =
     \<lparr>httpGet = (\<lambda>pdfURL. Inr response), createDenied = (\<lambda>name. False),
      writeFault = (\<lambda>name. None)\<rparr>"

definition emptyStore :: world where
  "emptyStore = \<lparr>files = [''PDFs'' \<mapsto> Directory], effects = []\<rparr>"

definition newEffects :: "world \<Rightarrow> world \<Rightarrow> effect list" where
  "newEffects before after = drop (length (effects before)) (effects after)"



definition failingBody :: Response where
  "failingBody =
     \<lparr>StatusCode = 200, Header = [''Content-Type'' \<mapsto> [''application/pdf'']],
      Body = ''%PDF'', BodyError = True\<rparr>"


section \<open>Deduplication\<close>

lemma set_firstOccurrences: "set (firstOccurrences xs) = set xs"
proof (induction xs rule: firstOccurrences.induct)
  case 1
  show ?case by simp
next
  case (2 x xs)
  then show ?case by auto
qed

lemma distinct_firstOccurrences: "distinct (firstOccurrences xs)"
proof (induction xs rule: firstOccurrences.induct)
  case 1
  show ?case by simp
next
  case (2 x xs)
  then show ?case by (simp add: set_firstOccurrences)
qed

lemma firstOccurrences_distinct: "distinct xs \<Longrightarrow> firstOccurrences xs = xs"
proof (induction xs)
  case Nil
  show ?case by simp
next
  case (Cons x xs)
  then have "filter (\<lambda>y. y \<noteq> x) xs = xs"
    by (auto intro: filter_True)
  with Cons show ?case by simp
qed

text \<open>
  The loop invariant: \<open>check\<close> holds exactly the strings of a set \<open>S\<close> already
  emitted, and the loop appends the first occurrences of what is not in \<open>S\<close>.
\<close>

lemma dedupLoop_invariant:
  "(\<And>k. lookupSeen check k = (k \<in> S)) \<Longrightarrow>
   dedupLoop xs check acc = acc @ firstOccurrences (filter (\<lambda>x. x \<notin> S) xs)"
proof (induction xs arbitrary: check acc S)
  case Nil
  show ?case by simp
next
  case (Cons x xs)
  show ?case
  proof (cases "x \<in> S")
    case True
    with Cons.prems have "lookupSeen check x" by simp
    with True Cons.IH [OF Cons.prems] show ?thesis by simp
  next
    case False
    with Cons.prems have fresh: "\<not> lookupSeen check x" by simp
    have seen': "\<And>k. lookupSeen (check(x \<mapsto> True)) k = (k \<in> insert x S)"
      using Cons.prems by (simp add: lookupSeen_def)
    have twice: "filter (\<lambda>y. y \<noteq> x) (filter (\<lambda>y. y \<notin> S) xs) = filter (\<lambda>y. y \<notin> insert x S) xs"
      by (induction xs) auto
    have "dedupLoop (x # xs) check acc = dedupLoop xs (check(x \<mapsto> True)) (acc @ [x])"
      using fresh by simp
    also have "\<dots> = (acc @ [x]) @ firstOccurrences (filter (\<lambda>y. y \<notin> insert x S) xs)"
      by (rule Cons.IH [OF seen'])
    also have "\<dots> = acc @ firstOccurrences (filter (\<lambda>y. y \<notin> S) (x # xs))"
      using False twice by simp
    finally show ?thesis .
  qed
qed

lemma removeDuplicatesFromSlice_firstOccurrences:
  "removeDuplicatesFromSlice slice = firstOccurrences slice"
  using dedupLoop_invariant [of Map.empty "{}" slice "[]"]
  by (simp add: removeDuplicatesFromSlice_def lookupSeen_def)

text \<open>
  Claim C7. For every input slice, \<open>removeDuplicatesFromSlice\<close> returns pairwise
  distinct elements, namely the first occurrence of each distinct input element in
  first-occurrence order (so with the elements of the input and no others), and
  applying it twice equals applying it once.
\<close>

theorem removeDuplicatesFromSlice_dedup:
  "distinct (removeDuplicatesFromSlice slice)
   \<and> set (removeDuplicatesFromSlice slice) = set slice
   \<and> removeDuplicatesFromSlice slice = firstOccurrences slice
   \<and> removeDuplicatesFromSlice (removeDuplicatesFromSlice slice) = removeDuplicatesFromSlice slice"
  by (simp add: removeDuplicatesFromSlice_firstOccurrences distinct_firstOccurrences
      set_firstOccurrences firstOccurrences_distinct)

theorem removeDuplicatesFromSlice_dedup_witness:
  "removeDuplicatesFromSlice [''b'', ''a'', ''b'', ''c'', ''a''] = [''b'', ''a'', ''c'']
   \<and> distinct (removeDuplicatesFromSlice [''b'', ''a'', ''b'', ''c'', ''a''])
   \<and> removeDuplicatesFromSlice (removeDuplicatesFromSlice [''b'', ''a'', ''b'', ''c'', ''a''])
       = [''b'', ''a'', ''c'']"
  using removeDuplicatesFromSlice_dedup [of "[''b'', ''a'', ''b'', ''c'', ''a'']"]
  by (simp add: removeDuplicatesFromSlice_def lookupSeen_def)


section \<open>The filename sanitizer\<close>

lemma isSafeByte_replaceNonAlnum: "list_all isSafeByte (replaceNonAlnum s)"
  by (induction s) (auto simp: replaceNonAlnum_def isSafeByte_def)

lemma set_collapseUnderscores: "set (collapseUnderscores s) \<subseteq> set s"
  by (induction s rule: collapseUnderscores.induct) auto

lemma set_Trim: "set (Trim s c) \<subseteq> set s"
proof -
  have "set (Trim s c) \<subseteq> set (dropWhile (\<lambda>x. x = c) s)"
    unfolding Trim_def using set_dropWhileD by fastforce
  also have "\<dots> \<subseteq> set s"
    using set_dropWhileD by fastforce
  finally show ?thesis .
qed

lemma set_removeSubstring: "set (removeSubstring input toRemove) \<subseteq> set input"
proof (induction input toRemove rule: removeSubstring.induct)
  case (1 input toRemove)
  show ?case
  proof (cases "toRemove = [] \<or> input = []")
    case True
    then show ?thesis by (simp add: removeSubstring.simps)
  next
    case stop: False
    show ?thesis
    proof (cases "prefix toRemove input")
      case True
      with stop have "removeSubstring input toRemove
          = removeSubstring (drop (length toRemove) input) toRemove"
        by (simp add: removeSubstring.simps)
      moreover have "set (drop (length toRemove) input) \<subseteq> set input"
        by (rule set_drop_subset)
      ultimately show ?thesis using "1.IH"(1) stop True by auto
    next
      case False
      with stop have "removeSubstring input toRemove
          = hd input # removeSubstring (tl input) toRemove"
        by (simp add: removeSubstring.simps)
      moreover from stop obtain c cs where "input = c # cs" by (cases input) auto
      ultimately show ?thesis using "1.IH"(2) stop False by auto
    qed
  qed
qed

lemma set_foldl_removeSubstring: "set (foldl removeSubstring s rs) \<subseteq> set s"
proof (induction rs arbitrary: s)
  case Nil
  show ?case by simp
next
  case (Cons r rs)
  have "set (foldl removeSubstring (removeSubstring s r) rs) \<subseteq> set (removeSubstring s r)"
    by (rule Cons.IH)
  also have "\<dots> \<subseteq> set s" by (rule set_removeSubstring)
  finally show ?case by simp
qed

lemma extScan_no_dot: "CHR ''.'' \<notin> set front \<Longrightarrow> extScan front passed = []"
  by (induction front arbitrary: passed) auto

lemma extScan_shape:
  "extScan front passed = [] \<or>
   (\<exists>mid. extScan front passed = CHR ''.'' # mid @ passed
      \<and> list_all (\<lambda>c. c \<noteq> CHR ''.'' \<and> c \<noteq> CHR ''/'') mid)"
proof (induction front arbitrary: passed)
  case Nil
  show ?case by simp
next
  case (Cons c front)
  show ?case
  proof (cases "isPathSeparator c \<or> c = CHR ''.''")
    case True
    then show ?thesis by auto
  next
    case False
    from Cons.IH [of "c # passed"] show ?thesis
    proof
      assume "extScan front (c # passed) = []"
      with False show ?thesis by simp
    next
      assume "\<exists>mid. extScan front (c # passed) = CHR ''.'' # mid @ c # passed
          \<and> list_all (\<lambda>c. c \<noteq> CHR ''.'' \<and> c \<noteq> CHR ''/'') mid"
      then obtain mid where "extScan front (c # passed) = CHR ''.'' # (mid @ [c]) @ passed"
        and "list_all (\<lambda>c. c \<noteq> CHR ''.'' \<and> c \<noteq> CHR ''/'') (mid @ [c])"
        using False by (auto simp: isPathSeparator_def)
      with False show ?thesis by (metis extScan.simps(2))
    qed
  qed
qed

lemma Ext_shape:
  "Ext path = [] \<or>
   (\<exists>rest. Ext path = CHR ''.'' # rest \<and> list_all (\<lambda>c. c \<noteq> CHR ''.'' \<and> c \<noteq> CHR ''/'') rest)"
  using extScan_shape [of "rev path" "[]"] by (auto simp: Ext_def)

lemma isSafeByte_not_dot: "isSafeByte c \<Longrightarrow> c \<noteq> CHR ''.''"
  by (auto simp: isSafeByte_def isLowerAlnum_def)

lemma sanitizedStem_safe: "list_all isSafeByte (sanitizedStem lower)"
proof -
  have "set (sanitizedStem lower) \<subseteq> set (replaceNonAlnum lower)"
    unfolding sanitizedStem_def
    using set_foldl_removeSubstring set_Trim set_collapseUnderscores by (meson subset_trans)
  with isSafeByte_replaceNonAlnum [of lower] show ?thesis
    by (auto simp: list_all_iff)
qed

lemma sanitizedStem_Ext: "getFileExtension (sanitizedStem lower) = []"
proof -
  have "CHR ''.'' \<notin> set (sanitizedStem lower)"
    using sanitizedStem_safe [of lower] isSafeByte_not_dot by (auto simp: list_all_iff)
  then show ?thesis
    by (simp add: getFileExtension_def Ext_def extScan_no_dot)
qed

lemma ToLowerUnicode_ASCII: "isASCII s \<Longrightarrow> ToLowerUnicode unicodeLower s = ToLower s"
  by (simp add: ToLowerUnicode_def)

lemma urlToFilename_ASCII:
  "isASCII rawURL \<Longrightarrow> urlToFilename unicodeLower rawURL = urlToFilename ToLower rawURL"
  by (simp add: urlToFilename_def ToLowerUnicode_def)

lemma urlToFilename_split:
  "urlToFilename unicodeLower rawURL =
     sanitizedStem (getFilename (hd (Split (ToLowerUnicode unicodeLower rawURL) (CHR ''?''))))
     @ getFileExtension (getFilename (hd (Split (ToLowerUnicode unicodeLower rawURL) (CHR ''?''))))"
  using sanitizedStem_Ext [of "getFilename (hd (Split (ToLowerUnicode unicodeLower rawURL) (CHR ''?'')))"]
  by (simp add: urlToFilename_def Let_def sanitizedStem_def)

lemma countDots_Ext: "countDots (Ext path) \<le> 1"
proof -
  from Ext_shape [of path] show ?thesis
  proof
    assume "Ext path = []"
    then show ?thesis by (simp add: countDots_def)
  next
    assume "\<exists>rest. Ext path = CHR ''.'' # rest
        \<and> list_all (\<lambda>c. c \<noteq> CHR ''.'' \<and> c \<noteq> CHR ''/'') rest"
    then obtain rest where ext: "Ext path = CHR ''.'' # rest"
      and rest: "list_all (\<lambda>c. c \<noteq> CHR ''.'' \<and> c \<noteq> CHR ''/'') rest"
      by blast
    from rest have "filter (\<lambda>c. c = CHR ''.'') rest = []"
      by (simp add: list_all_iff filter_empty_conv)
    with ext show ?thesis by (simp add: countDots_def)
  qed
qed

lemma countDots_safe: "list_all isSafeByte stem \<Longrightarrow> countDots stem = 0"
  using isSafeByte_not_dot by (auto simp: countDots_def list_all_iff filter_empty_conv)

lemma countDots_append: "countDots (xs @ ys) = countDots xs + countDots ys"
  by (simp add: countDots_def)


text \<open>
  Claim C3, as amended. For every input URL and every Unicode case mapping, the output
  of \<open>urlToFilename\<close> is a stem followed by the extension captured from the base name
  of the lower-cased URL. The stem
  contains only lower-case alphanumeric characters and underscores. The extension is
  empty or starts with a dot and has no other dot (and no separator), so the output has
  at most one dot, and that dot is the one of the captured extension. Nothing is said
  about the other characters of the extension: they are those of the URL.
\<close>

theorem urlToFilename_alphabet:
  "\<exists>stem ext. urlToFilename unicodeLower rawURL = stem @ ext
     \<and> ext = getFileExtension (getFilename (hd (Split (ToLowerUnicode unicodeLower rawURL) (CHR ''?''))))
     \<and> list_all isSafeByte stem
     \<and> (ext = [] \<or> (\<exists>rest. ext = CHR ''.'' # rest
            \<and> list_all (\<lambda>c. c \<noteq> CHR ''.'' \<and> c \<noteq> CHR ''/'') rest))
     \<and> countDots (urlToFilename unicodeLower rawURL) \<le> 1"
proof -
  define lower where "lower = getFilename (hd (Split (ToLowerUnicode unicodeLower rawURL) (CHR ''?'')))"
  have out: "urlToFilename unicodeLower rawURL = sanitizedStem lower @ getFileExtension lower"
    unfolding lower_def by (rule urlToFilename_split)
  have safe: "list_all isSafeByte (sanitizedStem lower)"
    by (rule sanitizedStem_safe)
  have shape: "getFileExtension lower = [] \<or> (\<exists>rest. getFileExtension lower = CHR ''.'' # rest
      \<and> list_all (\<lambda>c. c \<noteq> CHR ''.'' \<and> c \<noteq> CHR ''/'') rest)"
    unfolding getFileExtension_def by (rule Ext_shape)
  have "countDots (getFileExtension lower) \<le> 1"
    unfolding getFileExtension_def by (rule countDots_Ext)
  then have dots: "countDots (urlToFilename unicodeLower rawURL) \<le> 1"
    by (simp add: out countDots_append countDots_safe [OF safe])
  show ?thesis
  proof (intro exI conjI)
    show "urlToFilename unicodeLower rawURL = sanitizedStem lower @ getFileExtension lower" by (rule out)
    show "getFileExtension lower
        = getFileExtension (getFilename (hd (Split (ToLowerUnicode unicodeLower rawURL) (CHR ''?''))))"
      by (simp add: lower_def)
    show "list_all isSafeByte (sanitizedStem lower)" by (rule safe)
    show "getFileExtension lower = [] \<or> (\<exists>rest. getFileExtension lower = CHR ''.'' # rest
      \<and> list_all (\<lambda>c. c \<noteq> CHR ''.'' \<and> c \<noteq> CHR ''/'') rest)" by (rule shape)
    show "countDots (urlToFilename unicodeLower rawURL) \<le> 1" by (rule dots)
  qed
qed

lemma manual_ASCII: "isASCII ''https://example.com/docs/manual.pdf#page=2''"
  by code_simp

lemma manual_ext:
  "getFileExtension (getFilename (hd (Split
      (ToLowerUnicode unicodeLower ''https://example.com/docs/manual.pdf#page=2'') (CHR ''?''))))
     = ''.pdf#page=2''"
proof -
  have "getFileExtension (getFilename (hd (Split
      (ToLower ''https://example.com/docs/manual.pdf#page=2'') (CHR ''?'')))) = ''.pdf#page=2''"
    by code_simp
  then show ?thesis by (simp only: ToLowerUnicode_ASCII [OF manual_ASCII])
qed

lemma kelvin_ext:
  "getFileExtension (getFilename (hd (Split (ToLowerUnicode sampleLower kelvinURL) (CHR ''?''))))
     = ''.pdf''"
  by code_simp

lemma kelvin_name: "urlToFilename sampleLower kelvinURL = ''kelvin.pdf''"
  by code_simp

theorem urlToFilename_alphabet_witness:
  "(\<exists>stem. urlToFilename sampleLower ''https://example.com/docs/manual.pdf#page=2''
        = stem @ ''.pdf#page=2''
      \<and> list_all isSafeByte stem)
   \<and> countDots (urlToFilename sampleLower ''https://example.com/docs/manual.pdf#page=2'') \<le> 1
   \<and> (\<exists>stem. urlToFilename sampleLower kelvinURL = stem @ ''.pdf'' \<and> list_all isSafeByte stem)
   \<and> urlToFilename sampleLower kelvinURL = ''kelvin.pdf''"
proof -
  from urlToFilename_alphabet [of sampleLower "''https://example.com/docs/manual.pdf#page=2''"]
  have manual: "(\<exists>stem. urlToFilename sampleLower ''https://example.com/docs/manual.pdf#page=2''
        = stem @ ''.pdf#page=2'' \<and> list_all isSafeByte stem)
      \<and> countDots (urlToFilename sampleLower ''https://example.com/docs/manual.pdf#page=2'') \<le> 1"
    unfolding manual_ext by blast
  from urlToFilename_alphabet [of sampleLower kelvinURL]
  have kelvin: "\<exists>stem. urlToFilename sampleLower kelvinURL = stem @ ''.pdf''
      \<and> list_all isSafeByte stem"
    unfolding kelvin_ext by blast
  from manual kelvin kelvin_name show ?thesis by blast
qed

text \<open>
  The claim as stated (only lower-case alphanumerics, underscores and the dot of one
  extension in the output) fails on a URL with a fragment: the captured extension
  \<open>.pdf#page=2\<close> is appended as it is.
\<close>

lemma manual_name:
  "urlToFilename unicodeLower ''https://example.com/docs/manual.pdf#page=2''
     = ''manual_page_2.pdf#page=2''"
proof -
  have "urlToFilename unicodeLower ''https://example.com/docs/manual.pdf#page=2''
      = urlToFilename ToLower ''https://example.com/docs/manual.pdf#page=2''"
    by (rule urlToFilename_ASCII [OF manual_ASCII])
  also have "\<dots> = ''manual_page_2.pdf#page=2''"
    by code_simp
  finally show ?thesis .
qed

lemma manual_name_bytes: "\<not> list_all isNameByte ''manual_page_2.pdf#page=2''"
  by code_simp

theorem urlToFilename_alphabet_counterexample:
  "urlToFilename sampleLower ''https://example.com/docs/manual.pdf#page=2''
     = ''manual_page_2.pdf#page=2''
   \<and> \<not> list_all isNameByte
         (urlToFilename sampleLower ''https://example.com/docs/manual.pdf#page=2'')"
  unfolding manual_name using manual_name_bytes by simp

text \<open>The three representative URLs of the specification.\<close>

lemmas cleanName_simps =
  cleanName_def isNameByte_def isSafeByte_def isLowerAlnum_def countDots_def
  Contains_def sublist_Cons_right

lemma radio_guide_name:
  "urlToFilename unicodeLower ''https://example.com/manuals/Radio-Guide.PDF?v=2''
     = ''radio_guide.pdf''"
proof -
  have ascii: "isASCII ''https://example.com/manuals/Radio-Guide.PDF?v=2''"
    by code_simp
  have "urlToFilename unicodeLower ''https://example.com/manuals/Radio-Guide.PDF?v=2''
      = urlToFilename ToLower ''https://example.com/manuals/Radio-Guide.PDF?v=2''"
    by (rule urlToFilename_ASCII [OF ascii])
  also have "\<dots> = ''radio_guide.pdf''"
    by code_simp
  finally show ?thesis .
qed

lemma dots_name:
  "urlToFilename unicodeLower ''https://example.com/a/b/file.name.with.dots.pdf''
     = ''file_name_with_dots.pdf''"
proof -
  have ascii: "isASCII ''https://example.com/a/b/file.name.with.dots.pdf''"
    by code_simp
  have "urlToFilename unicodeLower ''https://example.com/a/b/file.name.with.dots.pdf''
      = urlToFilename ToLower ''https://example.com/a/b/file.name.with.dots.pdf''"
    by (rule urlToFilename_ASCII [OF ascii])
  also have "\<dots> = ''file_name_with_dots.pdf''"
    by code_simp
  finally show ?thesis .
qed

lemma noext_name: "urlToFilename unicodeLower ''https://example.com/noext'' = ''noext''"
proof -
  have ascii: "isASCII ''https://example.com/noext''"
    by code_simp
  have "urlToFilename unicodeLower ''https://example.com/noext''
      = urlToFilename ToLower ''https://example.com/noext''"
    by (rule urlToFilename_ASCII [OF ascii])
  also have "\<dots> = ''noext''"
    by code_simp
  finally show ?thesis .
qed

lemma radio_guide_clean: "cleanName ''radio_guide.pdf''"
  by (simp add: cleanName_simps)
lemma dots_clean: "cleanName ''file_name_with_dots.pdf''"
  by (simp add: cleanName_simps)
lemma noext_clean: "cleanName ''noext''"
  by (simp add: cleanName_simps)

text \<open>
  Claim C8. On each of the three fixed URLs \<open>urlToFilename\<close> gives one fixed name (it
  is a function of its argument alone, so repeated calls agree): \<open>radio_guide.pdf\<close>,
  \<open>file_name_with_dots.pdf\<close> and \<open>noext\<close>. Each name consists of \<open>[a-z0-9_]\<close> and
  at most one extension (none for the third URL), and contains none of \<open>_pdf\<close>,
  \<open>_zip\<close>, \<open>_txt\<close>.
\<close>

theorem urlToFilename_representative:
  "urlToFilename unicodeLower ''https://example.com/manuals/Radio-Guide.PDF?v=2''
     = ''radio_guide.pdf''
   \<and> urlToFilename unicodeLower ''https://example.com/a/b/file.name.with.dots.pdf''
     = ''file_name_with_dots.pdf''
   \<and> urlToFilename unicodeLower ''https://example.com/noext'' = ''noext''
   \<and> cleanName (urlToFilename unicodeLower ''https://example.com/manuals/Radio-Guide.PDF?v=2'')
   \<and> cleanName (urlToFilename unicodeLower ''https://example.com/a/b/file.name.with.dots.pdf'')
   \<and> cleanName (urlToFilename unicodeLower ''https://example.com/noext'')"
  unfolding radio_guide_name dots_name noext_name
  using radio_guide_clean dots_clean noext_clean by simp


section \<open>The link extractor\<close>

lemma sublist_skip_prefix:
  "set pre \<inter> set sub = {} \<Longrightarrow> sub \<noteq> [] \<Longrightarrow> sublist sub (pre @ rest) = sublist sub rest"
proof (induction pre)
  case Nil
  show ?case by simp
next
  case (Cons c pre)
  from Cons.prems obtain a as where sub: "sub = a # as" by (cases sub) auto
  with Cons.prems have "a \<noteq> c" by auto
  then have "\<not> prefix sub (c # pre @ rest)" by (simp add: sub)
  with Cons show ?case by (simp add: sublist_Cons_right)
qed

lemma trimPrefixes_sublist:
  "(\<And>w. w \<in> set ws \<Longrightarrow> set (map f w) \<inter> set sub = {}) \<Longrightarrow> sub \<noteq> [] \<Longrightarrow>
   sublist sub (map f (trimPrefixes ws s)) = sublist sub (map f s)"
proof (induction ws s rule: trimPrefixes.induct)
  case (1 ws s)
  show ?case
  proof (cases "find (\<lambda>w. w \<noteq> [] \<and> prefix w s) ws")
    case None
    then show ?thesis by (simp add: trimPrefixes.simps)
  next
    case (Some w)
    then have w: "w \<in> set ws" "prefix w s"
      by (auto simp: find_Some_iff)
    then have s: "s = w @ drop (length w) s"
      by (auto simp: prefix_def)
    have "sublist sub (map f (trimPrefixes ws s))
        = sublist sub (map f (trimPrefixes ws (drop (length w) s)))"
      using Some by (simp add: trimPrefixes.simps)
    also have "\<dots> = sublist sub (map f (drop (length w) s))"
      using "1.IH" [OF Some] "1.prems" by simp
    also have "\<dots> = sublist sub (map f w @ map f (drop (length w) s))"
      using sublist_skip_prefix [OF "1.prems"(1) [OF w(1)] "1.prems"(2)] by simp
    also have "\<dots> = sublist sub (map f s)"
      using s by (metis map_append)
    finally show ?thesis .
  qed
qed

lemma lowerByte_fixed: "c \<notin> set ''ABCDEFGHIJKLMNOPQRSTUVWXYZ'' \<Longrightarrow> lowerByte c = c"
  by (simp add: lowerByte_def)

lemma spaceByte_lower:
  assumes "c \<in> set (concat unicodeSpaces)"
  shows "lowerByte c \<notin> set ''.pdf''"
proof -
  from assms have "c \<notin> set ''ABCDEFGHIJKLMNOPQRSTUVWXYZ''"
    unfolding unicodeSpaces_def by auto
  then have "lowerByte c = c" by (rule lowerByte_fixed)
  moreover from assms have "c \<notin> set ''.pdf''"
    unfolding unicodeSpaces_def by auto
  ultimately show ?thesis by simp
qed

lemma lowerByte_space:
  assumes "w \<in> set unicodeSpaces"
  shows "set (map lowerByte w) \<inter> set ''.pdf'' = {}"
proof -
  have "lowerByte c \<notin> set ''.pdf''" if "c \<in> set w" for c
  proof (rule spaceByte_lower)
    from that assms show "c \<in> set (concat unicodeSpaces)"
      unfolding set_concat by blast
  qed
  then show ?thesis by (auto simp only: set_map)
qed

lemma lowerByte_space_rev:
  "w \<in> set (map rev unicodeSpaces) \<Longrightarrow> set (map lowerByte w) \<inter> set (rev ''.pdf'') = {}"
proof -
  assume "w \<in> set (map rev unicodeSpaces)"
  then obtain u where "u \<in> set unicodeSpaces" and "w = rev u" by auto
  then show ?thesis using lowerByte_space [of u] by (simp only: set_rev set_map)
qed

lemma hasPdfMarker_TrimSpace: "hasPdfMarker (TrimSpace v) = hasPdfMarker v"
proof -
  define left where "left = trimPrefixes unicodeSpaces v"
  have "hasPdfMarker (TrimSpace v)
      = sublist ''.pdf'' (rev (map lowerByte (trimPrefixes (map rev unicodeSpaces) (rev left))))"
    by (simp add: hasPdfMarker_def Contains_def ToLower_def TrimSpace_def left_def rev_map)
  also have "\<dots> = sublist (rev ''.pdf'') (map lowerByte (trimPrefixes (map rev unicodeSpaces) (rev left)))"
    by (metis rev_rev_ident sublist_rev)
  also have "\<dots> = sublist (rev ''.pdf'') (map lowerByte (rev left))"
    by (rule trimPrefixes_sublist [OF lowerByte_space_rev]) simp_all
  also have "\<dots> = sublist ''.pdf'' (map lowerByte left)"
    by (metis rev_map sublist_rev)
  also have "\<dots> = sublist ''.pdf'' (map lowerByte v)"
    unfolding left_def by (rule trimPrefixes_sublist [OF lowerByte_space]) simp_all
  finally show ?thesis
    by (simp add: hasPdfMarker_def Contains_def ToLower_def)
qed

lemma scanAttributes_eq:
  "scanAttributes attrs pdfLinks
     = pdfLinks @ filter hasPdfMarker (map TrimSpace (hrefValues attrs))"
  by (induction attrs arbitrary: pdfLinks) (simp_all add: hrefValues_def hasPdfMarker_def Let_def)

lemma exploreHTML_eq:
  "exploreHTML node pdfLinks = pdfLinks @ filter hasPdfMarker (map TrimSpace (anchorHrefs node))"
  and exploreChildren_eq:
  "exploreChildren kids pdfLinks
     = pdfLinks @ filter hasPdfMarker (map TrimSpace (concat (map anchorHrefs kids)))"
proof (induction node pdfLinks and kids pdfLinks rule: exploreHTML_exploreChildren.induct)
  case (1 ty dat attrs kids pdfLinks)
  then show ?case by (simp add: scanAttributes_eq hrefValues_def)
next
  case (2 pdfLinks)
  show ?case by simp
next
  case (3 childNode siblings pdfLinks)
  then show ?case by simp
qed

lemma filter_map_TrimSpace:
  "filter hasPdfMarker (map TrimSpace vs) = map TrimSpace (filter hasPdfMarker vs)"
  by (induction vs) (simp_all add: hasPdfMarker_TrimSpace)

lemma concat_map_concat:
  "concat (map (\<lambda>k. concat (map h (f k))) kids) = concat (map h (concat (map f kids)))"
  by (induction kids) simp_all

lemma anchorHrefs_anchorNodes:
  "anchorHrefs node = concat (map (\<lambda>n. hrefValues (Attr n)) (anchorNodes node))"
proof (induction node rule: anchorHrefs.induct)
  case (1 ty dat attrs kids)
  have "concat (map anchorHrefs kids)
      = concat (map (\<lambda>k. concat (map (\<lambda>n. hrefValues (Attr n)) (anchorNodes k))) kids)"
    using "1.IH" by (auto intro!: arg_cong [where f = concat])
  then show ?case
    by (cases "ty = ElementNode \<and> dat = ''a''") (auto simp: concat_map_concat)
qed

lemma count_single_hrefs:
  "list_all singleHref nodes \<Longrightarrow>
   length (filter P (concat (map (\<lambda>n. hrefValues (Attr n)) nodes)))
     = length (filter (\<lambda>n. list_ex P (hrefValues (Attr n))) nodes)"
proof (induction nodes)
  case Nil
  show ?case by simp
next
  case (Cons n nodes)
  then have "length (hrefValues (Attr n)) \<le> 1" by (simp add: singleHref_def)
  then have "hrefValues (Attr n) = [] \<or> (\<exists>v. hrefValues (Attr n) = [v])"
    by (cases "hrefValues (Attr n)") auto
  with Cons show ?case by auto
qed

lemma extractPDFUrls_eq:
  "parse htmlContent = Inr root \<Longrightarrow>
   extractPDFUrls parse htmlContent = filter hasPdfMarker (map TrimSpace (anchorHrefs root))"
  by (simp add: extractPDFUrls_def exploreHTML_eq)

lemma example_links: "exploreHTML examplePage [] = [''Doc.PDF'', ''/get?f=a.Pdf&v=1'']"
  by code_simp

lemma example_hrefs: "anchorHrefs examplePage = [''  Doc.PDF '', ''index.html'', ''/get?f=a.Pdf&v=1'']"
  by code_simp

lemma example_marked: "filter hasPdfMarker [''  Doc.PDF '', ''index.html'', ''/get?f=a.Pdf&v=1'']
    = [''  Doc.PDF '', ''/get?f=a.Pdf&v=1'']"
  by code_simp

text \<open>
  Claim C4, as amended. When the parser gives the tree \<open>root\<close> for the markup,
  \<open>extractPDFUrls\<close> returns, in document order (a node before its children, children
  from first to last, at any depth), the value of every \<open>href\<close> attribute of an anchor
  element that contains \<open>.pdf\<close> in any case, with the white space around the value
  removed. So it returns exactly as many links as there are such attribute values, and,
  when no anchor repeats its \<open>href\<close> attribute, as many as there are anchors that carry
  one: \<open>N\<close> links for \<open>N\<close> such anchors, whatever the number of the other anchors.
\<close>

theorem extractPDFUrls_complete_in_order:
  assumes "parse htmlContent = Inr root"
  shows "extractPDFUrls parse htmlContent = map TrimSpace (filter hasPdfMarker (anchorHrefs root))
    \<and> length (extractPDFUrls parse htmlContent) = length (filter hasPdfMarker (anchorHrefs root))
    \<and> (list_all singleHref (anchorNodes root) \<longrightarrow>
         length (extractPDFUrls parse htmlContent)
           = length (filter carriesPdfHref (anchorNodes root)))"
proof -
  have links: "extractPDFUrls parse htmlContent
      = map TrimSpace (filter hasPdfMarker (anchorHrefs root))"
    using assms by (simp add: extractPDFUrls_eq filter_map_TrimSpace)
  then have "length (extractPDFUrls parse htmlContent)
      = length (filter hasPdfMarker (anchorHrefs root))"
    by simp
  moreover have "length (filter hasPdfMarker (anchorHrefs root))
      = length (filter carriesPdfHref (anchorNodes root))"
    if "list_all singleHref (anchorNodes root)"
    using count_single_hrefs [OF that, of hasPdfMarker]
    by (simp add: anchorHrefs_anchorNodes carriesPdfHref_def [abs_def])
  ultimately show ?thesis using links by simp
qed

text \<open>
  Claim C10. Every link returned by \<open>extractPDFUrls\<close> is the value of an \<open>href\<close>
  attribute with its leading and trailing white space removed, and the test for \<open>.pdf\<close>
  in any case is made on the trimmed value: the result is the trimmed values, in
  document order, filtered by that test.
\<close>

theorem extractPDFUrls_trimmed:
  assumes "parse htmlContent = Inr root"
  shows "extractPDFUrls parse htmlContent
      = filter (\<lambda>link. Contains (ToLower link) ''.pdf'') (map TrimSpace (anchorHrefs root))"
proof -
  have "hasPdfMarker = (\<lambda>link. Contains (ToLower link) ''.pdf'')"
    by (simp add: fun_eq_iff hasPdfMarker_def)
  with assms show ?thesis by (simp add: extractPDFUrls_eq)
qed


section \<open>The document fetcher\<close>

lemmas downloadPDF_unfold =
  downloadPDF_def destination_def Let_def io_Copy_def os_Create_def WriteTo_def emit_def
  newEffects_def


text \<open>
  Claim C2. For every response with status 200 whose content type contains neither
  \<open>application/pdf\<close> nor \<open>binary/octet-stream\<close>, whatever its body, \<open>downloadPDF\<close>
  returns false, leaves the files as they were and creates no file; when the
  destination did not exist, what it does is the request and the log entry of the
  invalid content type.
\<close>

theorem downloadPDF_content_type_gate:
  assumes "httpGet env pdfURL = Inr response"
    and "StatusCode response = 200"
    and "\<not> Contains (headerGet (Header response) ''Content-Type'') ''application/pdf''"
    and "\<not> Contains (headerGet (Header response) ''Content-Type'') ''binary/octet-stream''"
  shows "fst (downloadPDF unicodeLower env pdfURL outputDirectory w) = False
    \<and> files (snd (downloadPDF unicodeLower env pdfURL outputDirectory w)) = files w
    \<and> CreateFile (destination unicodeLower pdfURL outputDirectory)
         \<notin> set (newEffects w (snd (downloadPDF unicodeLower env pdfURL outputDirectory w)))
    \<and> (\<not> fileExists (files w) (destination unicodeLower pdfURL outputDirectory) \<longrightarrow>
          newEffects w (snd (downloadPDF unicodeLower env pdfURL outputDirectory w))
            = [HttpGet pdfURL,
               Log (InvalidContentType pdfURL (headerGet (Header response) ''Content-Type''))])"
  using assms by (simp add: downloadPDF_unfold)

text \<open>
  Claim C5. For every response with status 200 and an empty body, \<open>downloadPDF\<close>
  returns false, leaves the files as they were and creates no file; with an accepted
  content type, a read without error and no file at the destination, what it does is the
  request, the read of zero bytes and the log entry of the empty download.
\<close>

theorem downloadPDF_zero_byte_gate:
  assumes "httpGet env pdfURL = Inr response"
    and "StatusCode response = 200"
    and "Body response = []"
  shows "fst (downloadPDF unicodeLower env pdfURL outputDirectory w) = False
    \<and> files (snd (downloadPDF unicodeLower env pdfURL outputDirectory w)) = files w
    \<and> CreateFile (destination unicodeLower pdfURL outputDirectory)
         \<notin> set (newEffects w (snd (downloadPDF unicodeLower env pdfURL outputDirectory w)))
    \<and> (\<not> fileExists (files w) (destination unicodeLower pdfURL outputDirectory)
        \<and> Contains (headerGet (Header response) ''Content-Type'') ''application/pdf''
        \<and> \<not> BodyError response \<longrightarrow>
          newEffects w (snd (downloadPDF unicodeLower env pdfURL outputDirectory w))
            = [HttpGet pdfURL, ReadBody 0, Log (DownloadedZeroBytes pdfURL)])"
  using assms by (simp add: downloadPDF_unfold)

text \<open>
  Claim C6. In every execution of \<open>downloadPDF\<close>, a file is created only at the
  destination and only after the request and the read of the whole body, without error
  and with a byte count above zero; the files change only when the file is created; and
  when the read of the body fails, the files are as before and no file is created.
\<close>

theorem downloadPDF_read_before_create:
  "(CreateFile name \<in> set (newEffects w (snd (downloadPDF unicodeLower env pdfURL outputDirectory w))) \<longrightarrow>
      (\<exists>response later. httpGet env pdfURL = Inr response
         \<and> \<not> BodyError response \<and> 0 < length (Body response)
         \<and> name = destination unicodeLower pdfURL outputDirectory
         \<and> newEffects w (snd (downloadPDF unicodeLower env pdfURL outputDirectory w))
             = [HttpGet pdfURL, ReadBody (length (Body response)), CreateFile name] @ later))
   \<and> (files (snd (downloadPDF unicodeLower env pdfURL outputDirectory w)) \<noteq> files w \<longrightarrow>
        CreateFile (destination unicodeLower pdfURL outputDirectory)
          \<in> set (newEffects w (snd (downloadPDF unicodeLower env pdfURL outputDirectory w))))
   \<and> (\<forall>response. httpGet env pdfURL = Inr response \<and> BodyError response \<longrightarrow>
        files (snd (downloadPDF unicodeLower env pdfURL outputDirectory w)) = files w
        \<and> CreateFile (destination unicodeLower pdfURL outputDirectory)
          \<notin> set (newEffects w (snd (downloadPDF unicodeLower env pdfURL outputDirectory w))))"
  by (auto simp: downloadPDF_unfold split: sum.splits option.splits)

text \<open>
  Claim C9. \<open>downloadPDF\<close> returns true or changes a file only for a response whose
  content type contains \<open>binary/octet-stream\<close> or \<open>application/pdf\<close>. In particular,
  for a response with status 200 and the content type \<open>application/octet-stream\<close>,
  whatever its body, and no file at the destination, it logs the invalid content type
  after the request, returns false and leaves the files as they were.
\<close>

theorem downloadPDF_accepted_content_types:
  "((fst (downloadPDF unicodeLower env pdfURL outputDirectory w)
      \<or> files (snd (downloadPDF unicodeLower env pdfURL outputDirectory w)) \<noteq> files w) \<longrightarrow>
      (\<exists>response. httpGet env pdfURL = Inr response
         \<and> (Contains (headerGet (Header response) ''Content-Type'') ''binary/octet-stream''
            \<or> Contains (headerGet (Header response) ''Content-Type'') ''application/pdf'')))
   \<and> (\<forall>response. httpGet env pdfURL = Inr response \<and> StatusCode response = 200
         \<and> headerGet (Header response) ''Content-Type'' = ''application/octet-stream''
         \<and> \<not> fileExists (files w) (destination unicodeLower pdfURL outputDirectory) \<longrightarrow>
         fst (downloadPDF unicodeLower env pdfURL outputDirectory w) = False
         \<and> files (snd (downloadPDF unicodeLower env pdfURL outputDirectory w)) = files w
         \<and> newEffects w (snd (downloadPDF unicodeLower env pdfURL outputDirectory w))
             = [HttpGet pdfURL, Log (InvalidContentType pdfURL ''application/octet-stream'')])"
proof -
  have no1: "\<not> Contains ''application/octet-stream'' ''binary/octet-stream''"
    by (simp add: Contains_def sublist_Cons_right)
  have no2: "\<not> Contains ''application/octet-stream'' ''application/pdf''"
    by (simp add: Contains_def sublist_Cons_right)
  show ?thesis
    using no1 no2 by (auto simp: downloadPDF_unfold split: sum.splits option.splits)
qed

section \<open>The extractor on the example page\<close>

lemma example_parse: "exampleParse exampleMarkup = Inr examplePage"
  by (simp add: exampleParse_def)

lemma example_single: "list_all singleHref (anchorNodes examplePage)"
  by code_simp

lemma example_carriers: "length (filter carriesPdfHref (anchorNodes examplePage)) = 2"
  by code_simp

lemma example_trimmed:
  "map TrimSpace (anchorHrefs examplePage) = [''Doc.PDF'', ''index.html'', ''/get?f=a.Pdf&v=1'']"
  by code_simp

lemma example_extract: "extractPDFUrls exampleParse exampleMarkup = [''Doc.PDF'', ''/get?f=a.Pdf&v=1'']"
  by (simp add: extractPDFUrls_def exampleParse_def example_links)

lemma example_marked_hrefs:
  "filter hasPdfMarker (anchorHrefs examplePage) = [''  Doc.PDF '', ''/get?f=a.Pdf&v=1'']"
  by (simp only: example_hrefs example_marked)

theorem extractPDFUrls_complete_in_order_witness:
  "exampleParse exampleMarkup = Inr examplePage
   \<and> list_all singleHref (anchorNodes examplePage)
   \<and> extractPDFUrls exampleParse exampleMarkup
       = map TrimSpace [''  Doc.PDF '', ''/get?f=a.Pdf&v=1'']
   \<and> length (extractPDFUrls exampleParse exampleMarkup) = 2
   \<and> length (filter carriesPdfHref (anchorNodes examplePage)) = 2"
  using extractPDFUrls_complete_in_order [of exampleParse exampleMarkup examplePage]
    example_parse example_single example_carriers
  by (simp add: example_marked_hrefs del: map_eq_conv)

text \<open>
  The claim as stated (the links are the \<open>href\<close> values themselves) fails on the
  example page: the first link is returned without the white space of its attribute.
\<close>

theorem extractPDFUrls_complete_in_order_counterexample:
  "extractPDFUrls exampleParse exampleMarkup = [''Doc.PDF'', ''/get?f=a.Pdf&v=1'']
   \<and> filter hasPdfMarker (anchorHrefs examplePage) = [''  Doc.PDF '', ''/get?f=a.Pdf&v=1'']
   \<and> extractPDFUrls exampleParse exampleMarkup \<noteq> filter hasPdfMarker (anchorHrefs examplePage)"
  unfolding example_extract example_marked_hrefs by simp

theorem extractPDFUrls_trimmed_witness:
  "exampleParse exampleMarkup = Inr examplePage
   \<and> map TrimSpace (anchorHrefs examplePage) = [''Doc.PDF'', ''index.html'', ''/get?f=a.Pdf&v=1'']
   \<and> extractPDFUrls exampleParse exampleMarkup
       = filter (\<lambda>link. Contains (ToLower link) ''.pdf'') [''Doc.PDF'', ''index.html'', ''/get?f=a.Pdf&v=1'']
   \<and> extractPDFUrls exampleParse exampleMarkup = [''Doc.PDF'', ''/get?f=a.Pdf&v=1'']"
  using extractPDFUrls_trimmed [of exampleParse exampleMarkup examplePage]
    example_parse example_extract
  by (simp only: example_trimmed simp_thms)


section \<open>The fetcher on concrete responses\<close>

text \<open>
  Stores with the output directory only and with a document already there, under the
  name of an ASCII URL and under the name of the URL with the Kelvin sign; a server that
  answers every request with one response.
\<close>

lemma radio_guide_destination:
  "destination sampleLower ''https://example.com/manuals/Radio-Guide.PDF?v=2'' ''PDFs/''
     = ''PDFs/radio_guide.pdf''"
  by code_simp




lemma emptyStore_free: "\<not> fileExists (files emptyStore) ''PDFs/radio_guide.pdf''"
  by (simp add: emptyStore_def fileExists_def os_Stat_def IsDir_def)

lemma pdfResponse_fields:
  "StatusCode (pdfResponse contentType body) = 200"
  "headerGet (Header (pdfResponse contentType body)) ''Content-Type'' = contentType"
  "Body (pdfResponse contentType body) = body"
  "BodyError (pdfResponse contentType body) = False"
  by (simp_all add: pdfResponse_def headerGet_def)

lemma server_httpGet: "httpGet (server response) pdfURL = Inr response"
  by (simp add: server_def)

lemma html_not_pdf:
  "\<not> Contains ''text/html'' ''application/pdf''"
  "\<not> Contains ''text/html'' ''binary/octet-stream''"
  by (simp_all add: Contains_def sublist_Cons_right)

lemma pdf_is_pdf: "Contains ''application/pdf'' ''application/pdf''"
  by (simp add: Contains_def)


theorem downloadPDF_content_type_gate_witness:
  "httpGet (server (pdfResponse ''text/html'' ''%PDF-1.4''))
     ''https://example.com/manuals/Radio-Guide.PDF?v=2'' = Inr (pdfResponse ''text/html'' ''%PDF-1.4'')
   \<and> StatusCode (pdfResponse ''text/html'' ''%PDF-1.4'') = 200
   \<and> headerGet (Header (pdfResponse ''text/html'' ''%PDF-1.4'')) ''Content-Type'' = ''text/html''
   \<and> \<not> Contains ''text/html'' ''application/pdf''
   \<and> \<not> Contains ''text/html'' ''binary/octet-stream''
   \<and> fst (downloadPDF sampleLower (server (pdfResponse ''text/html'' ''%PDF-1.4''))
        ''https://example.com/manuals/Radio-Guide.PDF?v=2'' ''PDFs/'' emptyStore) = False
   \<and> files (snd (downloadPDF sampleLower (server (pdfResponse ''text/html'' ''%PDF-1.4''))
        ''https://example.com/manuals/Radio-Guide.PDF?v=2'' ''PDFs/'' emptyStore)) = files emptyStore
   \<and> newEffects emptyStore
        (snd (downloadPDF sampleLower (server (pdfResponse ''text/html'' ''%PDF-1.4''))
           ''https://example.com/manuals/Radio-Guide.PDF?v=2'' ''PDFs/'' emptyStore))
       = [HttpGet ''https://example.com/manuals/Radio-Guide.PDF?v=2'',
          Log (InvalidContentType ''https://example.com/manuals/Radio-Guide.PDF?v=2'' ''text/html'')]"
  using downloadPDF_content_type_gate [where env = "server (pdfResponse ''text/html'' ''%PDF-1.4'')"
      and pdfURL = "''https://example.com/manuals/Radio-Guide.PDF?v=2''"
      and response = "pdfResponse ''text/html'' ''%PDF-1.4''"
      and outputDirectory = "''PDFs/''" and w = emptyStore and unicodeLower = sampleLower]
    html_not_pdf emptyStore_free
  unfolding radio_guide_destination pdfResponse_fields server_httpGet
  by simp

theorem downloadPDF_zero_byte_gate_witness:
  "httpGet (server (pdfResponse ''application/pdf'' []))
     ''https://example.com/manuals/Radio-Guide.PDF?v=2'' = Inr (pdfResponse ''application/pdf'' [])
   \<and> StatusCode (pdfResponse ''application/pdf'' []) = 200
   \<and> Body (pdfResponse ''application/pdf'' []) = []
   \<and> fst (downloadPDF sampleLower (server (pdfResponse ''application/pdf'' []))
        ''https://example.com/manuals/Radio-Guide.PDF?v=2'' ''PDFs/'' emptyStore) = False
   \<and> files (snd (downloadPDF sampleLower (server (pdfResponse ''application/pdf'' []))
        ''https://example.com/manuals/Radio-Guide.PDF?v=2'' ''PDFs/'' emptyStore)) = files emptyStore
   \<and> newEffects emptyStore
        (snd (downloadPDF sampleLower (server (pdfResponse ''application/pdf'' []))
           ''https://example.com/manuals/Radio-Guide.PDF?v=2'' ''PDFs/'' emptyStore))
       = [HttpGet ''https://example.com/manuals/Radio-Guide.PDF?v=2'', ReadBody 0,
          Log (DownloadedZeroBytes ''https://example.com/manuals/Radio-Guide.PDF?v=2'')]"
  using downloadPDF_zero_byte_gate [where env = "server (pdfResponse ''application/pdf'' [])"
      and pdfURL = "''https://example.com/manuals/Radio-Guide.PDF?v=2''"
      and response = "pdfResponse ''application/pdf'' []"
      and outputDirectory = "''PDFs/''" and w = emptyStore and unicodeLower = sampleLower]
    pdf_is_pdf emptyStore_free
  unfolding radio_guide_destination pdfResponse_fields server_httpGet
  by simp


lemma radio_guide_path:
  "Join [''PDFs/'', ToLowerUnicode sampleLower
       (urlToFilename sampleLower ''https://example.com/manuals/Radio-Guide.PDF?v=2'')]
     = ''PDFs/radio_guide.pdf''"
  using radio_guide_destination by (simp add: destination_def)

lemma download_success:
  "fst (downloadPDF sampleLower (server (pdfResponse ''application/pdf'' ''%PDF-1.4''))
     ''https://example.com/manuals/Radio-Guide.PDF?v=2'' ''PDFs/'' emptyStore) = True"
  "newEffects emptyStore
     (snd (downloadPDF sampleLower (server (pdfResponse ''application/pdf'' ''%PDF-1.4''))
        ''https://example.com/manuals/Radio-Guide.PDF?v=2'' ''PDFs/'' emptyStore))
     = [HttpGet ''https://example.com/manuals/Radio-Guide.PDF?v=2'', ReadBody 8,
        CreateFile ''PDFs/radio_guide.pdf'', WriteFile ''PDFs/radio_guide.pdf'' 8,
        Log (SuccessfullyDownloaded 8 ''https://example.com/manuals/Radio-Guide.PDF?v=2''
               ''PDFs/radio_guide.pdf'')]"
  "files (snd (downloadPDF sampleLower (server (pdfResponse ''application/pdf'' ''%PDF-1.4''))
     ''https://example.com/manuals/Radio-Guide.PDF?v=2'' ''PDFs/'' emptyStore))
     ''PDFs/radio_guide.pdf'' = Some (RegularFile ''%PDF-1.4'')"
  using emptyStore_free pdf_is_pdf
  by (simp_all add: downloadPDF_def Let_def radio_guide_path server_def pdfResponse_fields
      io_Copy_def os_Create_def WriteTo_def emit_def newEffects_def emptyStore_def)

lemma failingBody_fields:
  "StatusCode failingBody = 200" "BodyError failingBody"
  by (simp_all add: failingBody_def)

lemma octet_not_accepted:
  "\<not> Contains ''application/octet-stream'' ''binary/octet-stream''"
  "\<not> Contains ''application/octet-stream'' ''application/pdf''"
  by (simp_all add: Contains_def sublist_Cons_right)

theorem downloadPDF_read_before_create_witness:
  "CreateFile ''PDFs/radio_guide.pdf''
     \<in> set (newEffects emptyStore
          (snd (downloadPDF sampleLower (server (pdfResponse ''application/pdf'' ''%PDF-1.4''))
             ''https://example.com/manuals/Radio-Guide.PDF?v=2'' ''PDFs/'' emptyStore)))
   \<and> (\<exists>later. newEffects emptyStore
          (snd (downloadPDF sampleLower (server (pdfResponse ''application/pdf'' ''%PDF-1.4''))
             ''https://example.com/manuals/Radio-Guide.PDF?v=2'' ''PDFs/'' emptyStore))
        = [HttpGet ''https://example.com/manuals/Radio-Guide.PDF?v=2'', ReadBody 8,
           CreateFile ''PDFs/radio_guide.pdf''] @ later)
   \<and> files (snd (downloadPDF sampleLower (server (pdfResponse ''application/pdf'' ''%PDF-1.4''))
         ''https://example.com/manuals/Radio-Guide.PDF?v=2'' ''PDFs/'' emptyStore))
       \<noteq> files emptyStore
   \<and> httpGet (server failingBody) ''https://example.com/manuals/Radio-Guide.PDF?v=2''
       = Inr failingBody
   \<and> BodyError failingBody
   \<and> files (snd (downloadPDF sampleLower (server failingBody)
         ''https://example.com/manuals/Radio-Guide.PDF?v=2'' ''PDFs/'' emptyStore))
       = files emptyStore"
proof -
  have created: "CreateFile ''PDFs/radio_guide.pdf''
     \<in> set (newEffects emptyStore
          (snd (downloadPDF sampleLower (server (pdfResponse ''application/pdf'' ''%PDF-1.4''))
             ''https://example.com/manuals/Radio-Guide.PDF?v=2'' ''PDFs/'' emptyStore)))"
    by (simp add: download_success)
  have changed: "files (snd (downloadPDF sampleLower (server (pdfResponse ''application/pdf'' ''%PDF-1.4''))
         ''https://example.com/manuals/Radio-Guide.PDF?v=2'' ''PDFs/'' emptyStore))
       \<noteq> files emptyStore"
    using download_success(3) emptyStore_free
    by (auto simp: emptyStore_def)
  from downloadPDF_read_before_create [where name = "''PDFs/radio_guide.pdf''"
      and w = emptyStore and env = "server (pdfResponse ''application/pdf'' ''%PDF-1.4'')"
      and pdfURL = "''https://example.com/manuals/Radio-Guide.PDF?v=2''"
      and outputDirectory = "''PDFs/''" and unicodeLower = sampleLower] created
  have ordered: "\<exists>later. newEffects emptyStore
          (snd (downloadPDF sampleLower (server (pdfResponse ''application/pdf'' ''%PDF-1.4''))
             ''https://example.com/manuals/Radio-Guide.PDF?v=2'' ''PDFs/'' emptyStore))
        = [HttpGet ''https://example.com/manuals/Radio-Guide.PDF?v=2'', ReadBody 8,
           CreateFile ''PDFs/radio_guide.pdf''] @ later"
    by (auto simp: server_httpGet pdfResponse_fields)
  from downloadPDF_read_before_create [where name = "''PDFs/radio_guide.pdf''"
      and w = emptyStore and env = "server failingBody"
      and pdfURL = "''https://example.com/manuals/Radio-Guide.PDF?v=2''"
      and outputDirectory = "''PDFs/''" and unicodeLower = sampleLower]
  have kept: "files (snd (downloadPDF sampleLower (server failingBody)
         ''https://example.com/manuals/Radio-Guide.PDF?v=2'' ''PDFs/'' emptyStore))
       = files emptyStore"
    using failingBody_fields by (simp add: server_httpGet)
  from created ordered changed kept show ?thesis
    using failingBody_fields by (simp add: server_httpGet)
qed

theorem downloadPDF_accepted_content_types_witness:
  "fst (downloadPDF sampleLower (server (pdfResponse ''application/pdf'' ''%PDF-1.4''))
     ''https://example.com/manuals/Radio-Guide.PDF?v=2'' ''PDFs/'' emptyStore)
   \<and> Contains (headerGet (Header (pdfResponse ''application/pdf'' ''%PDF-1.4'')) ''Content-Type'')
        ''application/pdf''
   \<and> httpGet (server (pdfResponse ''application/octet-stream'' ''%PDF-1.4''))
        ''https://example.com/manuals/Radio-Guide.PDF?v=2''
       = Inr (pdfResponse ''application/octet-stream'' ''%PDF-1.4'')
   \<and> StatusCode (pdfResponse ''application/octet-stream'' ''%PDF-1.4'') = 200
   \<and> headerGet (Header (pdfResponse ''application/octet-stream'' ''%PDF-1.4'')) ''Content-Type''
       = ''application/octet-stream''
   \<and> \<not> fileExists (files emptyStore)
         (destination sampleLower ''https://example.com/manuals/Radio-Guide.PDF?v=2'' ''PDFs/'')
   \<and> fst (downloadPDF sampleLower (server (pdfResponse ''application/octet-stream'' ''%PDF-1.4''))
        ''https://example.com/manuals/Radio-Guide.PDF?v=2'' ''PDFs/'' emptyStore) = False
   \<and> files (snd (downloadPDF sampleLower (server (pdfResponse ''application/octet-stream'' ''%PDF-1.4''))
        ''https://example.com/manuals/Radio-Guide.PDF?v=2'' ''PDFs/'' emptyStore))
       = files emptyStore
   \<and> newEffects emptyStore
        (snd (downloadPDF sampleLower (server (pdfResponse ''application/octet-stream'' ''%PDF-1.4''))
           ''https://example.com/manuals/Radio-Guide.PDF?v=2'' ''PDFs/'' emptyStore))
       = [HttpGet ''https://example.com/manuals/Radio-Guide.PDF?v=2'',
          Log (InvalidContentType ''https://example.com/manuals/Radio-Guide.PDF?v=2''
                 ''application/octet-stream'')]"
proof -
  from downloadPDF_accepted_content_types [where
      env = "server (pdfResponse ''application/pdf'' ''%PDF-1.4'')"
      and pdfURL = "''https://example.com/manuals/Radio-Guide.PDF?v=2''"
      and outputDirectory = "''PDFs/''" and w = emptyStore and unicodeLower = sampleLower]
    download_success(1)
  have accepted: "Contains (headerGet (Header (pdfResponse ''application/pdf'' ''%PDF-1.4''))
      ''Content-Type'') ''application/pdf''"
    using html_not_pdf by (auto simp: server_httpGet pdfResponse_fields Contains_def sublist_Cons_right)
  from downloadPDF_accepted_content_types [where
      env = "server (pdfResponse ''application/octet-stream'' ''%PDF-1.4'')"
      and pdfURL = "''https://example.com/manuals/Radio-Guide.PDF?v=2''"
      and outputDirectory = "''PDFs/''" and w = emptyStore and unicodeLower = sampleLower]
  have rejected: "fst (downloadPDF sampleLower (server (pdfResponse ''application/octet-stream'' ''%PDF-1.4''))
        ''https://example.com/manuals/Radio-Guide.PDF?v=2'' ''PDFs/'' emptyStore) = False
   \<and> files (snd (downloadPDF sampleLower (server (pdfResponse ''application/octet-stream'' ''%PDF-1.4''))
        ''https://example.com/manuals/Radio-Guide.PDF?v=2'' ''PDFs/'' emptyStore))
       = files emptyStore
   \<and> newEffects emptyStore
        (snd (downloadPDF sampleLower (server (pdfResponse ''application/octet-stream'' ''%PDF-1.4''))
           ''https://example.com/manuals/Radio-Guide.PDF?v=2'' ''PDFs/'' emptyStore))
       = [HttpGet ''https://example.com/manuals/Radio-Guide.PDF?v=2'',
          Log (InvalidContentType ''https://example.com/manuals/Radio-Guide.PDF?v=2''
                 ''application/octet-stream'')]"
    using emptyStore_free
    by (simp add: server_httpGet pdfResponse_fields radio_guide_destination)
  from accepted rejected show ?thesis
    using download_success(1) emptyStore_free
    by (simp add: server_httpGet pdfResponse_fields radio_guide_destination)
qed

end
